theory Spec2Isabelle
  imports Main "HOL-Library.Word"
begin

section \<open>Library primitives used by the handler\<close>

text \<open>
  The handler \<^verbatim>\<open>imgDownscale\<close> of \<^verbatim>\<open>functions/index.js\<close> is a storage trigger.
  It calls a handful of JavaScript string methods and the POSIX flavour of Node's
  \<^verbatim>\<open>path\<close> module (the function runs on Linux). They are embedded here as
  executable functions on \<^typ>\<open>string\<close>.
\<close>

subsection \<open>String methods\<close>

definition startsWith :: "string \<Rightarrow> string \<Rightarrow> bool" where
  \<comment> \<open>\<^verbatim>\<open>s.startsWith(p)\<close>\<close>
  "startsWith s p = (take (length p) s = p)"

definition endsWith :: "string \<Rightarrow> string \<Rightarrow> bool" where
  \<comment> \<open>\<^verbatim>\<open>s.endsWith(p)\<close>\<close>
  "endsWith s p = (length p \<le> length s \<and> drop (length s - length p) s = p)"

fun replace :: "string \<Rightarrow> string \<Rightarrow> string \<Rightarrow> string" where
  \<comment> \<open>\<^verbatim>\<open>s.replace(pat, rep)\<close> with a string pattern: only the first occurrence
      is replaced (the replacement used by the handler holds no \<^verbatim>\<open>$\<close> pattern).\<close>
  "replace [] pat rep = (if pat = [] then rep else [])"
| "replace (c # cs) pat rep =
     (if startsWith (c # cs) pat then rep @ drop (length pat) (c # cs)
      else c # replace cs pat rep)"

fun includesStr :: "string \<Rightarrow> string \<Rightarrow> bool" where
  \<comment> \<open>\<^verbatim>\<open>s.indexOf(pat) >= 0\<close>\<close>
  "includesStr [] pat = (pat = [])"
| "includesStr (c # cs) pat = (startsWith (c # cs) pat \<or> includesStr cs pat)"

subsection \<open>Node's \<^verbatim>\<open>path.posix\<close>\<close>

definition path_basename :: "string \<Rightarrow> string" where
  \<comment> \<open>\<^verbatim>\<open>path.basename(p)\<close>: trailing slashes are skipped, then the last
      run of non-slash characters is returned.\<close>
  "path_basename p =
     rev (takeWhile (\<lambda>c. c \<noteq> CHR ''/'') (dropWhile (\<lambda>c. c = CHR ''/'') (rev p)))"

definition path_dirname :: "string \<Rightarrow> string" where
  \<comment> \<open>\<^verbatim>\<open>path.dirname(p)\<close>: the scan runs from the last index down to index 1,
      skips trailing slashes, then the last component, and cuts at the slash it meets.\<close>
  "path_dirname p =
     (case p of
        [] \<Rightarrow> ''.''
      | c0 # rest \<Rightarrow>
          (case dropWhile (\<lambda>c. c \<noteq> CHR ''/'') (dropWhile (\<lambda>c. c = CHR ''/'') (rev rest)) of
             [] \<Rightarrow> (if c0 = CHR ''/'' then ''/'' else ''.'')
           | _ # front \<Rightarrow>
               (if c0 = CHR ''/'' \<and> front = [] then ''//'' else c0 # rev front)))"

fun split_slash :: "string \<Rightarrow> string list" where
  \<comment> \<open>the segments between slashes, as \<^verbatim>\<open>s.split("/")\<close> gives them\<close>
  "split_slash [] = [[]]"
| "split_slash (c # cs) =
     (if c = CHR ''/'' then [] # split_slash cs
      else (case split_slash cs of [] \<Rightarrow> [[c]] | x # xs \<Rightarrow> (c # x) # xs))"

fun join_slash :: "string list \<Rightarrow> string" where
  "join_slash [] = []"
| "join_slash [s] = s"
| "join_slash (s # t # ss) = s @ CHR ''/'' # join_slash (t # ss)"

fun normalizeString :: "bool \<Rightarrow> string list \<Rightarrow> string list \<Rightarrow> string list" where
  \<comment> \<open>Node's \<^verbatim>\<open>normalizeString(path, allowAboveRoot, ...)\<close>, segment by segment;
      the second argument is the result so far, last segment first.\<close>
  "normalizeString allowAboveRoot res [] = rev res"
| "normalizeString allowAboveRoot res (s # ss) =
     (if s = [] \<or> s = ''.'' then normalizeString allowAboveRoot res ss
      else if s = ''..'' then
        (case res of
           [] \<Rightarrow> normalizeString allowAboveRoot (if allowAboveRoot then [''..''] else []) ss
         | t # ts \<Rightarrow>
             (if t = ''..''
              then normalizeString allowAboveRoot (if allowAboveRoot then ''..'' # res else res) ss
              else normalizeString allowAboveRoot ts ss))
      else normalizeString allowAboveRoot (s # res) ss)"

definition path_normalize :: "string \<Rightarrow> string" where
  \<comment> \<open>\<^verbatim>\<open>path.normalize(p)\<close>\<close>
  "path_normalize p =
     (if p = [] then ''.''
      else
        (let isAbsolute = (hd p = CHR ''/'');
             trailingSeparator = (last p = CHR ''/'');
             q = join_slash (normalizeString (\<not> isAbsolute) [] (split_slash p))
         in if q = [] then (if isAbsolute then ''/'' else if trailingSeparator then ''./'' else ''.'')
            else (if isAbsolute then ''/'' else []) @ q @ (if trailingSeparator then ''/'' else [])))"

definition path_join :: "string list \<Rightarrow> string" where
  \<comment> \<open>\<^verbatim>\<open>path.join(...args)\<close>: the non-empty arguments joined by a slash, normalised\<close>
  "path_join args =
     (case filter (\<lambda>a. a \<noteq> []) args of
        [] \<Rightarrow> ''.''
      | as \<Rightarrow> path_normalize (join_slash as))"

definition last_segment :: "string \<Rightarrow> string" where
  \<comment> \<open>what stands behind the last slash of a path\<close>
  "last_segment s = rev (takeWhile (\<lambda>c. c \<noteq> CHR ''/'') (rev s))"

section \<open>Data model\<close>

type_synonym bytes = "8 word list"

text \<open>The storage event handed to the trigger (\<^verbatim>\<open>object\<close> in the source). A field that
  may be \<^verbatim>\<open>undefined\<close> is an option; the custom metadata is a JavaScript object with
  string values, kept as an association list.\<close>

record object_metadata =
  name :: "string option"
  bucket :: string
  contentType :: "string option"
  metadata :: "(string \<times> string) list option"

text \<open>Every call that leaves the handler: local file system, child process, Cloud Storage,
  Firestore. Logger calls are left out.\<close>

datatype call =
    Mkdirp string
  | Download string string string
  | StatSync string
  | SizeOf string
  | Spawn string "string list"
  | CopyFileSync string string
  | Upload string string string
  | GetSignedUrl string string
  | UnlinkSync string
  | Delete string string
  | DocUpdate string string

text \<open>An awaited promise that rejects, or a synchronous call that throws, ends the handler.\<close>

datatype error =
    Rejected call
  | TypeError
  | InvalidResourcePath
  | NotADocumentPath

datatype result =
    Null
  | Result "(string \<times> string) list" string

text \<open>The world the handler acts on: the objects of Cloud Storage by bucket and key, the
  local files and directories, the Firestore documents with their fields, and the calls made
  so far with their outcome (\<^term>\<open>True\<close> when the call succeeded).\<close>

record world =
  storage :: "string \<times> string \<rightharpoonup> bytes"
  files :: "string \<rightharpoonup> bytes"
  dirs :: "string set"
  firestore :: "string \<rightharpoonup> (string \<rightharpoonup> string)"
  trace :: "(call \<times> bool) list"

text \<open>What the handler cannot decide itself: the clock, the temporary directory, which calls
  fail for an outside reason (network, permissions, disk), what \<^verbatim>\<open>image-size\<close> reads from
  the bytes of a file (\<^term>\<open>None\<close> when they do not decode), what ImageMagick's
  \<^verbatim>\<open>convert\<close> writes for a geometry argument (\<^term>\<open>None\<close> when it exits with an
  error), and the URL that signing yields.\<close>

record env =
  now :: string
  tmpdir :: string
  fault :: "call \<Rightarrow> bool"
  image_size :: "bytes \<Rightarrow> (nat \<times> nat) option"
  convert :: "string \<Rightarrow> bytes \<Rightarrow> bytes option"
  signed_url :: "string \<times> string \<Rightarrow> string"

section \<open>Effects\<close>

text \<open>The handler is a sequence of awaited and synchronous calls; the first one that throws
  ends it. A computation takes the world and gives back an error or a value, together with
  the world it leaves. Every call is entered in the trace. A call throws when what it needs
  is missing (the object to download or delete, the file to read or unlink, the document to
  update) or when the environment makes it fail; a call that throws changes nothing but the
  trace.\<close>

type_synonym 'a io = "world \<Rightarrow> (error + 'a) \<times> world"

definition ret :: "'a \<Rightarrow> 'a io" where
  "ret x w = (Inr x, w)"

definition throw :: "error \<Rightarrow> 'a io" where
  "throw e w = (Inl e, w)"

definition bnd :: "'a io \<Rightarrow> ('a \<Rightarrow> 'b io) \<Rightarrow> 'b io" where
  "bnd m f w = (case m w of (Inl e, w') \<Rightarrow> (Inl e, w') | (Inr x, w') \<Rightarrow> f x w')"

definition logc :: "call \<Rightarrow> bool \<Rightarrow> world \<Rightarrow> world" where
  "logc c ok w = w\<lparr>trace := trace w @ [(c, ok)]\<rparr>"

definition reject :: "call \<Rightarrow> 'a io" where
  "reject c w = (Inl (Rejected c), logc c False w)"

definition accept :: "call \<Rightarrow> 'a \<Rightarrow> 'a io" where
  "accept c x w = (Inr x, logc c True w)"

definition wp :: "'a io \<Rightarrow> ((error + 'a) \<Rightarrow> world \<Rightarrow> bool) \<Rightarrow> world \<Rightarrow> bool" where
  \<comment> \<open>the postcondition \<open>Q\<close> holds of the outcome and the world that \<open>m\<close> leaves\<close>
  "wp m Q w = Q (fst (m w)) (snd (m w))"

definition mkdirp :: "env \<Rightarrow> string \<Rightarrow> unit io" where
  "mkdirp E d w =
     (if fault E (Mkdirp d) then reject (Mkdirp d) w
      else accept (Mkdirp d) () (w\<lparr>dirs := insert d (dirs w)\<rparr>))"

definition download :: "env \<Rightarrow> string \<Rightarrow> string \<Rightarrow> string \<Rightarrow> unit io" where
  \<comment> \<open>\<^verbatim>\<open>bucket.file(key).download({destination})\<close>\<close>
  "download E b key destination w =
     (case storage w (b, key) of
        None \<Rightarrow> reject (Download b key destination) w
      | Some content \<Rightarrow>
          if fault E (Download b key destination) then reject (Download b key destination) w
          else accept (Download b key destination) ()
                 (w\<lparr>files := (files w)(destination \<mapsto> content)\<rparr>))"

definition statSync :: "env \<Rightarrow> string \<Rightarrow> nat io" where
  \<comment> \<open>\<^verbatim>\<open>fs.statSync(p).size\<close>\<close>
  "statSync E p w =
     (case files w p of
        None \<Rightarrow> reject (StatSync p) w
      | Some content \<Rightarrow>
          if fault E (StatSync p) then reject (StatSync p) w
          else accept (StatSync p) (length content) w)"

definition sizeOf :: "env \<Rightarrow> string \<Rightarrow> (nat \<times> nat) io" where
  \<comment> \<open>\<^verbatim>\<open>sizeOf(p)\<close> of image-size: width and height\<close>
  "sizeOf E p w =
     (case files w p of
        None \<Rightarrow> reject (SizeOf p) w
      | Some content \<Rightarrow>
          (case image_size E content of
             None \<Rightarrow> reject (SizeOf p) w
           | Some d \<Rightarrow>
               if fault E (SizeOf p) then reject (SizeOf p) w
               else accept (SizeOf p) d w))"

definition spawn_convert :: "env \<Rightarrow> string \<Rightarrow> string \<Rightarrow> string \<Rightarrow> unit io" where
  \<comment> \<open>\<^verbatim>\<open>spawn("convert", [src, "-resize", geometry, dst])\<close>\<close>
  "spawn_convert E src geometry dst w =
     (let c = Spawn ''convert'' [src, ''-resize'', geometry, dst]
      in case files w src of
           None \<Rightarrow> reject c w
         | Some content \<Rightarrow>
             (case convert E geometry content of
                None \<Rightarrow> reject c w
              | Some scaled \<Rightarrow>
                  if fault E c then reject c w
                  else accept c () (w\<lparr>files := (files w)(dst \<mapsto> scaled)\<rparr>)))"

definition copyFileSync :: "env \<Rightarrow> string \<Rightarrow> string \<Rightarrow> unit io" where
  "copyFileSync E src dst w =
     (case files w src of
        None \<Rightarrow> reject (CopyFileSync src dst) w
      | Some content \<Rightarrow>
          if fault E (CopyFileSync src dst) then reject (CopyFileSync src dst) w
          else accept (CopyFileSync src dst) () (w\<lparr>files := (files w)(dst \<mapsto> content)\<rparr>))"

definition upload :: "env \<Rightarrow> string \<Rightarrow> string \<Rightarrow> string \<Rightarrow> (string \<times> string) io" where
  \<comment> \<open>\<^verbatim>\<open>bucket.upload(src, {destination})\<close>; the value is the handle of the new object\<close>
  "upload E b src destination w =
     (case files w src of
        None \<Rightarrow> reject (Upload b src destination) w
      | Some content \<Rightarrow>
          if fault E (Upload b src destination) then reject (Upload b src destination) w
          else accept (Upload b src destination) (b, destination)
                 (w\<lparr>storage := (storage w)((b, destination) \<mapsto> content)\<rparr>))"

definition getSignedUrl :: "env \<Rightarrow> string \<times> string \<Rightarrow> string io" where
  "getSignedUrl E f w =
     (if fault E (GetSignedUrl (fst f) (snd f)) then reject (GetSignedUrl (fst f) (snd f)) w
      else accept (GetSignedUrl (fst f) (snd f)) (signed_url E f) w)"

definition unlinkSync :: "env \<Rightarrow> string \<Rightarrow> unit io" where
  "unlinkSync E p w =
     (if files w p = None \<or> fault E (UnlinkSync p) then reject (UnlinkSync p) w
      else accept (UnlinkSync p) () (w\<lparr>files := (files w)(p := None)\<rparr>))"

definition delete :: "env \<Rightarrow> string \<Rightarrow> string \<Rightarrow> unit io" where
  \<comment> \<open>\<^verbatim>\<open>bucket.file(key).delete()\<close>\<close>
  "delete E b key w =
     (if storage w (b, key) = None \<or> fault E (Delete b key) then reject (Delete b key) w
      else accept (Delete b key) () (w\<lparr>storage := (storage w)((b, key) := None)\<rparr>))"

definition messageOrigin :: "object_metadata \<Rightarrow> error + string option" where
  \<comment> \<open>\<^verbatim>\<open>object.metadata.messageOrigin\<close>: reading a property of \<^verbatim>\<open>undefined\<close> throws,
      a key that is not there reads as \<^verbatim>\<open>undefined\<close>\<close>
  "messageOrigin object =
     (case metadata object of
        None \<Rightarrow> Inl TypeError
      | Some m \<Rightarrow> Inr (map_of m ''messageOrigin''))"

definition doc :: "string option \<Rightarrow> error + string" where
  \<comment> \<open>\<^verbatim>\<open>admin.firestore().doc(p)\<close>: the client library throws unless the path is a
      non-empty string without \<^verbatim>\<open>//\<close>; it splits the path at the slashes, drops the
      empty segments (a leading or a trailing slash is allowed) and throws unless an even
      number of segments is left. The reference it returns names the document by these
      segments, so \<^verbatim>\<open>/docs/A\<close> and \<^verbatim>\<open>docs/A/\<close> both name \<^verbatim>\<open>docs/A\<close>.\<close>
  "doc p =
     (case p of
        None \<Rightarrow> Inl InvalidResourcePath
      | Some s \<Rightarrow>
          if s = [] \<or> includesStr s ''//'' then Inl InvalidResourcePath
          else if filter (\<lambda>g. g \<noteq> []) (split_slash s) = []
                  \<or> odd (length (filter (\<lambda>g. g \<noteq> []) (split_slash s)))
               then Inl NotADocumentPath
          else Inr (join_slash (filter (\<lambda>g. g \<noteq> []) (split_slash s))))"

definition update :: "env \<Rightarrow> string \<Rightarrow> string \<Rightarrow> unit io" where
  \<comment> \<open>\<^verbatim>\<open>ref.update({resource: v})\<close>: the document has to exist\<close>
  "update E p v w =
     (case firestore w p of
        None \<Rightarrow> reject (DocUpdate p v) w
      | Some flds \<Rightarrow>
          if fault E (DocUpdate p v) then reject (DocUpdate p v) w
          else accept (DocUpdate p v) ()
                 (w\<lparr>firestore := (firestore w)(p \<mapsto> flds(''resource'' \<mapsto> v))\<rparr>))"

section \<open>The handler\<close>

definition filePath :: "object_metadata \<Rightarrow> string" where
  \<comment> \<open>\<^verbatim>\<open>object.name || ""\<close>\<close>
  "filePath object = (case name object of None \<Rightarrow> [] | Some n \<Rightarrow> n)"

definition is_image :: "object_metadata \<Rightarrow> bool" where
  \<comment> \<open>\<^verbatim>\<open>object.contentType?.startsWith("image/")\<close>, read as a condition\<close>
  "is_image object =
     (case contentType object of None \<Rightarrow> False | Some ct \<Rightarrow> startsWith ct ''image/'')"

definition baseFileName :: "object_metadata \<Rightarrow> string" where
  "baseFileName object = path_basename (filePath object)"

definition fileDir :: "object_metadata \<Rightarrow> string" where
  "fileDir object = path_dirname (filePath object)"

definition scaledFilePath :: "env \<Rightarrow> object_metadata \<Rightarrow> string" where
  "scaledFilePath E object =
     path_normalize (path_join [fileDir object, now E @ ''_'' @ baseFileName object])"

definition tempLocalFile :: "env \<Rightarrow> object_metadata \<Rightarrow> string" where
  "tempLocalFile E object = path_join [tmpdir E, filePath object]"

definition tempLocalDir :: "env \<Rightarrow> object_metadata \<Rightarrow> string" where
  "tempLocalDir E object = path_dirname (tempLocalFile E object)"

definition tempLocalScaledFile :: "env \<Rightarrow> object_metadata \<Rightarrow> string" where
  "tempLocalScaledFile E object = path_join [tmpdir E, scaledFilePath E object]"

definition bucketFilePath :: "env \<Rightarrow> object_metadata \<Rightarrow> string" where
  "bucketFilePath E object = replace (scaledFilePath E object) ''upload/'' ''images/''"

definition imgDownscale :: "env \<Rightarrow> object_metadata \<Rightarrow> result io" where
  "imgDownscale E object =
     (if \<not> is_image object then ret Null
      else if \<not> endsWith (fileDir object) ''/upload'' then ret Null
      else
        bnd (mkdirp E (tempLocalDir E object)) (\<lambda>_.
        bnd (download E (bucket object) (filePath object) (tempLocalFile E object)) (\<lambda>_.
        bnd (statSync E (tempLocalFile E object)) (\<lambda>imgInfo.
        bnd (sizeOf E (tempLocalFile E object)) (\<lambda>imgDimensions.
        bnd (if fst imgDimensions > 1080
             then spawn_convert E (tempLocalFile E object) ''x1080'' (tempLocalScaledFile E object)
             else copyFileSync E (tempLocalFile E object) (tempLocalScaledFile E object)) (\<lambda>_.
        bnd (upload E (bucket object) (tempLocalScaledFile E object) (bucketFilePath E object))
          (\<lambda>response.
        bnd (getSignedUrl E response) (\<lambda>signedImageUrl.
        bnd (unlinkSync E (tempLocalScaledFile E object)) (\<lambda>_.
        bnd (unlinkSync E (tempLocalFile E object)) (\<lambda>_.
        bnd (delete E (bucket object) (filePath object)) (\<lambda>_.
        bnd (case messageOrigin object of
               Inl e \<Rightarrow> throw e
             | Inr p \<Rightarrow> (case doc p of Inl e \<Rightarrow> throw e | Inr r \<Rightarrow> update E r signedImageUrl))
          (\<lambda>_.
        ret (Result (case metadata object of None \<Rightarrow> [] | Some m \<Rightarrow> m) signedImageUrl)
        ))))))))))))"

section \<open>Observing a run\<close>

definition run_result :: "env \<Rightarrow> object_metadata \<Rightarrow> world \<Rightarrow> error + result" where
  "run_result E object w = fst (imgDownscale E object w)"

definition run_world :: "env \<Rightarrow> object_metadata \<Rightarrow> world \<Rightarrow> world" where
  "run_world E object w = snd (imgDownscale E object w)"

definition run_calls :: "env \<Rightarrow> object_metadata \<Rightarrow> world \<Rightarrow> (call \<times> bool) list" where
  \<comment> \<open>the calls this run made, in order\<close>
  "run_calls E object w = drop (length (trace w)) (trace (run_world E object w))"

definition artifact_uploaded :: "env \<Rightarrow> object_metadata \<Rightarrow> world \<Rightarrow> bool" where
  "artifact_uploaded E object w =
     ((Upload (bucket object) (tempLocalScaledFile E object) (bucketFilePath E object), True)
        \<in> set (run_calls E object w))"

definition url_obtained :: "env \<Rightarrow> object_metadata \<Rightarrow> world \<Rightarrow> bool" where
  "url_obtained E object w =
     ((GetSignedUrl (bucket object) (bucketFilePath E object), True) \<in> set (run_calls E object w))"

definition original_deleted :: "env \<Rightarrow> object_metadata \<Rightarrow> world \<Rightarrow> bool" where
  "original_deleted E object w =
     ((Delete (bucket object) (filePath object), True) \<in> set (run_calls E object w))"

fun is_doc_update :: "call \<Rightarrow> bool" where
  "is_doc_update (DocUpdate p v) = True"
| "is_doc_update _ = False"

fun is_resize :: "call \<Rightarrow> bool" where
  "is_resize (Spawn cmd args) = True"
| "is_resize _ = False"

fun is_delete :: "call \<Rightarrow> bool" where
  "is_delete (Delete b key) = True"
| "is_delete _ = False"

definition has_origin :: "object_metadata \<Rightarrow> bool" where
  \<comment> \<open>the metadata carries a \<^verbatim>\<open>messageOrigin\<close> key\<close>
  "has_origin object =
     (case metadata object of None \<Rightarrow> False | Some m \<Rightarrow> map_of m ''messageOrigin'' \<noteq> None)"

definition past_cleanup :: "error + result \<Rightarrow> bool" where
  \<comment> \<open>the exits that lie behind the two \<^verbatim>\<open>fs.unlinkSync\<close> calls: the normal return,
      and an error raised by the delete of the original or by the document update\<close>
  "past_cleanup r =
     (case r of
        Inr (Result m u) \<Rightarrow> True
      | Inr Null \<Rightarrow> False
      | Inl (Rejected c) \<Rightarrow> is_delete c \<or> is_doc_update c
      | Inl TypeError \<Rightarrow> True
      | Inl InvalidResourcePath \<Rightarrow> True
      | Inl NotADocumentPath \<Rightarrow> True)"

section \<open>Sample events, environments and worlds\<close>

text \<open>Modelled from the spec: the external resize operation, which is not part of the
  repository. For the geometry \<^verbatim>\<open>x1080\<close> the height becomes the target and the width scales
  in proportion, rounded to the nearest pixel.\<close>

definition resize_to_height :: "nat \<Rightarrow> nat \<times> nat \<Rightarrow> nat \<times> nat" where
  "resize_to_height target d = ((fst d * target + snd d div 2) div snd d, target)"

definition original_png :: bytes where
  "original_png = [0x89, 0x50, 0x4E, 0x47, 0x01]"

definition scaled_png :: bytes where
  "scaled_png = [0x89, 0x50, 0x4E, 0x47, 0x02]"

definition sample_env :: "(call \<Rightarrow> bool) \<Rightarrow> nat \<times> nat \<Rightarrow> env" where
  \<comment> \<open>an environment in which \<^term>\<open>original_png\<close> has the given dimensions, the calls chosen
      by the first argument fail, and \<^verbatim>\<open>convert\<close> resizes as ImageMagick does\<close>
  "sample_env failing d =
     \<lparr>now = ''2024-01-01T00:00:00.000Z'',
      tmpdir = ''/tmp'',
      fault = failing,
      image_size = (\<lambda>b. if b = original_png then Some d
                         else if b = scaled_png then Some (resize_to_height 1080 d) else None),
      convert = (\<lambda>g b. if g = ''x1080'' \<and> b = original_png then Some scaled_png else None),
      signed_url = (\<lambda>f. ''https://storage.googleapis.com/'' @ fst f @ ''/'' @ snd f @ ''?X-Goog-Signature=00'')\<rparr>"

definition never :: "call \<Rightarrow> bool" where
  \<comment> \<open>no call fails for an outside reason\<close>
  "never c = False"

definition upload_fails :: "call \<Rightarrow> bool" where
  \<comment> \<open>the bucket cannot be written, as after a network error\<close>
  "upload_fails c = (case c of Upload b src dst \<Rightarrow> True | _ \<Rightarrow> False)"

definition delete_fails :: "call \<Rightarrow> bool" where
  \<comment> \<open>the service account may create objects but not delete them\<close>
  "delete_fails c = (case c of Delete b key \<Rightarrow> True | _ \<Rightarrow> False)"

definition sample_event :: "string \<Rightarrow> string option \<Rightarrow> (string \<times> string) list \<Rightarrow> object_metadata" where
  "sample_event n ct m = \<lparr>name = Some n, bucket = ''firechat.appspot.com'', contentType = ct, metadata = Some m\<rparr>"

definition event_upload :: object_metadata where
  "event_upload =
     sample_event ''files/u1/assets/upload/pic.png'' (Some ''image/png'') [(''messageOrigin'', ''msgs/m1'')]"

definition event_docs_A :: object_metadata where
  "event_docs_A =
     sample_event ''files/u1/assets/upload/pic.png'' (Some ''image/png'') [(''messageOrigin'', ''docs/A'')]"

definition event_slash_docs_A :: object_metadata where
  \<comment> \<open>the same document, named with a leading slash\<close>
  "event_slash_docs_A =
     sample_event ''files/u1/assets/upload/pic.png'' (Some ''image/png'') [(''messageOrigin'', ''/docs/A'')]"

definition event_text :: object_metadata where
  "event_text =
     sample_event ''files/u1/assets/upload/notes.txt'' (Some ''text/plain'') [(''messageOrigin'', ''msgs/m1'')]"

definition event_scaled :: object_metadata where
  "event_scaled =
     sample_event ''files/u1/assets/images/2024-01-01T00:00:00.000Z_pic.png'' (Some ''image/png'') []"

definition event_no_name :: object_metadata where
  "event_no_name =
     \<lparr>name = None, bucket = ''firechat.appspot.com'', contentType = Some ''image/png'',
      metadata = Some [(''messageOrigin'', ''msgs/m1'')]\<rparr>"

definition event_no_origin :: object_metadata where
  \<comment> \<open>an upload whose custom metadata holds the download token only\<close>
  "event_no_origin =
     sample_event ''files/u1/assets/upload/pic.png'' (Some ''image/png'')
       [(''firebaseStorageDownloadTokens'', ''0b9c6a3e'')]"

definition event_nested_upload :: object_metadata where
  \<comment> \<open>a user directory whose own name ends in \<^verbatim>\<open>upload\<close>\<close>
  "event_nested_upload =
     sample_event ''files/myupload/assets/upload/pic.png'' (Some ''image/png'') [(''messageOrigin'', ''msgs/m1'')]"

definition event_artifact :: object_metadata where
  \<comment> \<open>the event that storage raises for the object written by the run on
      \<^term>\<open>event_nested_upload\<close>: the upload sets no custom metadata, and the content type
      follows from the file extension\<close>
  "event_artifact =
     \<lparr>name = Some ''files/myimages/assets/upload/2024-01-01T00:00:00.000Z_pic.png'',
      bucket = ''firechat.appspot.com'', contentType = Some ''image/png'', metadata = None\<rparr>"

definition sample_world :: "string \<Rightarrow> world" where
  \<comment> \<open>the bucket holds \<^term>\<open>original_png\<close> under the given key, the two documents exist,
      the local disk is empty\<close>
  "sample_world key =
     \<lparr>storage = [(''firechat.appspot.com'', key) \<mapsto> original_png],
      files = Map.empty,
      dirs = {},
      firestore = [''msgs/m1'' \<mapsto> Map.empty, ''docs/A'' \<mapsto> Map.empty],
      trace = []\<rparr>"

definition world_upload :: world where
  "world_upload = sample_world ''files/u1/assets/upload/pic.png''"

definition world_nested :: world where
  "world_nested = sample_world ''files/myupload/assets/upload/pic.png''"

section \<open>Properties of the string primitives\<close>

lemma endsWith_iff: "endsWith s p = (\<exists>u. s = u @ p)"
proof
  assume "endsWith s p"
  then have "s = take (length s - length p) s @ p"
    by (metis append_take_drop_id endsWith_def)
  then show "\<exists>u. s = u @ p" ..
next
  assume "\<exists>u. s = u @ p"
  then show "endsWith s p" by (auto simp: endsWith_def)
qed

lemma endsWith_shorter: "endsWith s (c # p) \<Longrightarrow> endsWith s p"
proof -
  assume "endsWith s (c # p)"
  then obtain u where "s = u @ c # p" by (auto simp: endsWith_iff)
  then have "s = (u @ [c]) @ p" by simp
  then show "endsWith s p" unfolding endsWith_iff by blast
qed

section \<open>The event filter\<close>

text \<open>
  Claim C5. An event whose \<^verbatim>\<open>contentType\<close> is absent or does not begin with
  \<^verbatim>\<open>image/\<close> makes the handler return \<^verbatim>\<open>null\<close> at once: the world it leaves is the
  world it found, so nothing was stored, written, deleted or updated, and no call was made.
\<close>

theorem not_image_returns_early:
  "(case contentType object of None \<Rightarrow> True | Some ct \<Rightarrow> \<not> startsWith ct ''image/'')
   \<Longrightarrow> imgDownscale E object w = (Inr Null, w)"
  by (simp add: imgDownscale_def is_image_def ret_def split: option.splits)

theorem not_image_returns_early_witness:
  "(case contentType event_text of None \<Rightarrow> True | Some ct \<Rightarrow> \<not> startsWith ct ''image/'')
   \<and> imgDownscale (sample_env never (800, 600)) event_text (sample_world ''files/u1/assets/upload/notes.txt'')
       = (Inr Null, sample_world ''files/u1/assets/upload/notes.txt'')"
  using not_image_returns_early [of event_text "sample_env never (800, 600)"
      "sample_world ''files/u1/assets/upload/notes.txt''"]
  by (simp add: event_text_def sample_event_def startsWith_def)

text \<open>
  Claim C6. An event whose object directory does not end in \<^verbatim>\<open>upload\<close> makes the handler
  return \<^verbatim>\<open>null\<close> at once, leaving the world as it found it. (The handler tests for the
  suffix \<^verbatim>\<open>/upload\<close>, which such a directory cannot have.)
\<close>

theorem outside_upload_returns_early:
  "\<not> endsWith (fileDir object) ''upload'' \<Longrightarrow> imgDownscale E object w = (Inr Null, w)"
proof -
  assume "\<not> endsWith (fileDir object) ''upload''"
  then have "\<not> endsWith (fileDir object) ''/upload''"
    using endsWith_shorter by blast
  then show ?thesis by (simp add: imgDownscale_def ret_def)
qed

theorem outside_upload_returns_early_witness:
  "is_image event_scaled \<and> \<not> endsWith (fileDir event_scaled) ''upload''
   \<and> imgDownscale (sample_env never (800, 600)) event_scaled
        (sample_world ''files/u1/assets/images/2024-01-01T00:00:00.000Z_pic.png'')
       = (Inr Null, sample_world ''files/u1/assets/images/2024-01-01T00:00:00.000Z_pic.png'')"
  using outside_upload_returns_early [of event_scaled "sample_env never (800, 600)"
      "sample_world ''files/u1/assets/images/2024-01-01T00:00:00.000Z_pic.png''"]
  by (simp add: event_scaled_def sample_event_def fileDir_def filePath_def path_dirname_def
      endsWith_def is_image_def startsWith_def)

text \<open>
  Claim C10. When the event has no \<^verbatim>\<open>name\<close>, the handler works on the empty path; the
  directory of the empty path is \<^verbatim>\<open>.\<close>, which does not end in \<^verbatim>\<open>/upload\<close>, so the run
  ends in the filter: it returns \<^verbatim>\<open>null\<close> and leaves the world as it found it, whatever
  the content type is.
\<close>

theorem absent_name_returns_null:
  "name object = None \<Longrightarrow>
     filePath object = [] \<and> \<not> endsWith (fileDir object) ''/upload''
     \<and> imgDownscale E object w = (Inr Null, w)"
  by (simp add: imgDownscale_def fileDir_def filePath_def path_dirname_def endsWith_def ret_def)

theorem absent_name_returns_null_witness:
  "name event_no_name = None \<and> is_image event_no_name
   \<and> imgDownscale (sample_env never (800, 600)) event_no_name (sample_world [])
       = (Inr Null, sample_world [])"
  using absent_name_returns_null [of event_no_name "sample_env never (800, 600)" "sample_world []"]
  by (simp add: event_no_name_def is_image_def startsWith_def)

section \<open>Stepping through the handler\<close>

text \<open>One rule per call: the postcondition after the call, as a condition on the world
  before it. Together they run the handler symbolically, one call after the other.\<close>

lemma wp_cong: "w = w' \<Longrightarrow> wp m Q w = wp m Q w'"
  by simp

lemma wp_bnd:
  "wp (bnd m f) Q w =
     wp m (\<lambda>r w'. case r of Inl e \<Rightarrow> Q (Inl e) w' | Inr x \<Rightarrow> wp (f x) Q w') w"
  by (simp add: wp_def bnd_def split: prod.split sum.split)

lemma wp_ret: "wp (ret x) Q w = Q (Inr x) w"
  by (simp add: wp_def ret_def)

lemma wp_throw: "wp (throw e) Q w = Q (Inl e) w"
  by (simp add: wp_def throw_def)

lemma wp_if: "wp (if b then m else n) Q w = (if b then wp m Q w else wp n Q w)"
  by simp

lemma wp_mkdirp:
  "wp (mkdirp E d) Q w =
     (if fault E (Mkdirp d) then Q (Inl (Rejected (Mkdirp d))) (logc (Mkdirp d) False w)
      else Q (Inr ()) (logc (Mkdirp d) True (w\<lparr>dirs := insert d (dirs w)\<rparr>)))"
  by (simp add: wp_def mkdirp_def reject_def accept_def)

lemma wp_download:
  "wp (download E b key d) Q w =
     (if storage w (b, key) = None \<or> fault E (Download b key d)
      then Q (Inl (Rejected (Download b key d))) (logc (Download b key d) False w)
      else Q (Inr ()) (logc (Download b key d) True
             (w\<lparr>files := (files w)(d \<mapsto> the (storage w (b, key)))\<rparr>)))"
  by (auto simp add: wp_def download_def reject_def accept_def split: option.split)

lemma wp_statSync:
  "wp (statSync E p) Q w =
     (if files w p = None \<or> fault E (StatSync p)
      then Q (Inl (Rejected (StatSync p))) (logc (StatSync p) False w)
      else Q (Inr (length (the (files w p)))) (logc (StatSync p) True w))"
  by (auto simp add: wp_def statSync_def reject_def accept_def split: option.split)

lemma wp_sizeOf:
  "wp (sizeOf E p) Q w =
     (if files w p = None \<or> image_size E (the (files w p)) = None \<or> fault E (SizeOf p)
      then Q (Inl (Rejected (SizeOf p))) (logc (SizeOf p) False w)
      else Q (Inr (the (image_size E (the (files w p))))) (logc (SizeOf p) True w))"
  by (auto simp add: wp_def sizeOf_def reject_def accept_def split: option.split)

lemma wp_spawn_convert:
  "wp (spawn_convert E src g dst) Q w =
     (if files w src = None \<or> convert E g (the (files w src)) = None
         \<or> fault E (Spawn ''convert'' [src, ''-resize'', g, dst])
      then Q (Inl (Rejected (Spawn ''convert'' [src, ''-resize'', g, dst])))
             (logc (Spawn ''convert'' [src, ''-resize'', g, dst]) False w)
      else Q (Inr ()) (logc (Spawn ''convert'' [src, ''-resize'', g, dst]) True
             (w\<lparr>files := (files w)(dst \<mapsto> the (convert E g (the (files w src))))\<rparr>)))"
  by (auto simp add: wp_def spawn_convert_def reject_def accept_def Let_def split: option.split)

lemma wp_copyFileSync:
  "wp (copyFileSync E src dst) Q w =
     (if files w src = None \<or> fault E (CopyFileSync src dst)
      then Q (Inl (Rejected (CopyFileSync src dst))) (logc (CopyFileSync src dst) False w)
      else Q (Inr ()) (logc (CopyFileSync src dst) True
             (w\<lparr>files := (files w)(dst \<mapsto> the (files w src))\<rparr>)))"
  by (auto simp add: wp_def copyFileSync_def reject_def accept_def split: option.split)

lemma wp_upload:
  "wp (upload E b src d) Q w =
     (if files w src = None \<or> fault E (Upload b src d)
      then Q (Inl (Rejected (Upload b src d))) (logc (Upload b src d) False w)
      else Q (Inr (b, d)) (logc (Upload b src d) True
             (w\<lparr>storage := (storage w)((b, d) \<mapsto> the (files w src))\<rparr>)))"
  by (auto simp add: wp_def upload_def reject_def accept_def split: option.split)

lemma wp_getSignedUrl:
  "wp (getSignedUrl E f) Q w =
     (if fault E (GetSignedUrl (fst f) (snd f))
      then Q (Inl (Rejected (GetSignedUrl (fst f) (snd f)))) (logc (GetSignedUrl (fst f) (snd f)) False w)
      else Q (Inr (signed_url E f)) (logc (GetSignedUrl (fst f) (snd f)) True w))"
  by (simp add: wp_def getSignedUrl_def reject_def accept_def)

lemma wp_unlinkSync:
  "wp (unlinkSync E p) Q w =
     (if files w p = None \<or> fault E (UnlinkSync p)
      then Q (Inl (Rejected (UnlinkSync p))) (logc (UnlinkSync p) False w)
      else Q (Inr ()) (logc (UnlinkSync p) True (w\<lparr>files := (files w)(p := None)\<rparr>)))"
  by (simp add: wp_def unlinkSync_def reject_def accept_def)

lemma wp_delete:
  "wp (delete E b key) Q w =
     (if storage w (b, key) = None \<or> fault E (Delete b key)
      then Q (Inl (Rejected (Delete b key))) (logc (Delete b key) False w)
      else Q (Inr ()) (logc (Delete b key) True (w\<lparr>storage := (storage w)((b, key) := None)\<rparr>)))"
  by (simp add: wp_def delete_def reject_def accept_def)

lemma wp_update:
  "wp (update E p v) Q w =
     (if firestore w p = None \<or> fault E (DocUpdate p v)
      then Q (Inl (Rejected (DocUpdate p v))) (logc (DocUpdate p v) False w)
      else Q (Inr ()) (logc (DocUpdate p v) True
             (w\<lparr>firestore := (firestore w)(p \<mapsto> (the (firestore w p))(''resource'' \<mapsto> v))\<rparr>)))"
  by (auto simp add: wp_def update_def reject_def accept_def split: option.split)

lemma wp_notify:
  "wp (case messageOrigin object of
         Inl e \<Rightarrow> throw e
       | Inr p \<Rightarrow> (case doc p of Inl e \<Rightarrow> throw e | Inr r \<Rightarrow> update E r u)) Q w =
     (if metadata object = None then Q (Inl TypeError) w
      else (case doc (map_of (the (metadata object)) ''messageOrigin'') of
              Inl e \<Rightarrow> Q (Inl e) w
            | Inr r \<Rightarrow> wp (update E r u) Q w))"
  by (auto simp add: messageOrigin_def wp_throw split: option.split sum.split)

lemmas wp_rules = wp_bnd wp_ret wp_if wp_mkdirp wp_download wp_statSync wp_sizeOf wp_spawn_convert
  wp_copyFileSync wp_upload wp_getSignedUrl wp_unlinkSync wp_delete wp_notify wp_update

lemma logc_simps:
  "trace (logc c ok w) = trace w @ [(c, ok)]"
  "storage (logc c ok w) = storage w"
  "files (logc c ok w) = files w"
  "dirs (logc c ok w) = dirs w"
  "firestore (logc c ok w) = firestore w"
  "logc c ok (w\<lparr>files := f\<rparr>) = (logc c ok w)\<lparr>files := f\<rparr>"
  "logc c ok (w\<lparr>storage := s\<rparr>) = (logc c ok w)\<lparr>storage := s\<rparr>"
  "logc c ok (w\<lparr>dirs := d\<rparr>) = (logc c ok w)\<lparr>dirs := d\<rparr>"
  "logc c ok (w\<lparr>firestore := fs\<rparr>) = (logc c ok w)\<lparr>firestore := fs\<rparr>"
  by (simp_all add: logc_def)

text \<open>A property of a run is a postcondition of the handler.\<close>

lemma run_wp:
  "wp (imgDownscale E object)
      (\<lambda>r w'. Q r w' (drop (length (trace w)) (trace w'))) w
   \<Longrightarrow> Q (run_result E object w) (run_world E object w) (run_calls E object w)"
  by (simp add: wp_def run_result_def run_world_def run_calls_def)


lemma doc_absent: "doc None = Inl InvalidResourcePath"
  by (simp add: doc_def)

section \<open>The sample runs\<close>

lemma sample_paths:
  "filePath (sample_event ''files/u1/assets/upload/pic.png'' ct m) = ''files/u1/assets/upload/pic.png''"
  "fileDir (sample_event ''files/u1/assets/upload/pic.png'' ct m) = ''files/u1/assets/upload''"
  "tempLocalDir (sample_env f d) (sample_event ''files/u1/assets/upload/pic.png'' ct m)
     = ''/tmp/files/u1/assets/upload''"
  "tempLocalFile (sample_env f d) (sample_event ''files/u1/assets/upload/pic.png'' ct m)
     = ''/tmp/files/u1/assets/upload/pic.png''"
  "tempLocalScaledFile (sample_env f d) (sample_event ''files/u1/assets/upload/pic.png'' ct m)
     = ''/tmp/files/u1/assets/upload/2024-01-01T00:00:00.000Z_pic.png''"
  "bucketFilePath (sample_env f d) (sample_event ''files/u1/assets/upload/pic.png'' ct m)
     = ''files/u1/assets/images/2024-01-01T00:00:00.000Z_pic.png''"
  by (simp_all add: filePath_def fileDir_def baseFileName_def scaledFilePath_def tempLocalFile_def
      tempLocalDir_def tempLocalScaledFile_def bucketFilePath_def path_join_def path_normalize_def
      path_dirname_def path_basename_def startsWith_def sample_event_def sample_env_def)

lemma nested_paths:
  "filePath (sample_event ''files/myupload/assets/upload/pic.png'' ct m)
     = ''files/myupload/assets/upload/pic.png''"
  "fileDir (sample_event ''files/myupload/assets/upload/pic.png'' ct m)
     = ''files/myupload/assets/upload''"
  "tempLocalDir (sample_env f d) (sample_event ''files/myupload/assets/upload/pic.png'' ct m)
     = ''/tmp/files/myupload/assets/upload''"
  "tempLocalFile (sample_env f d) (sample_event ''files/myupload/assets/upload/pic.png'' ct m)
     = ''/tmp/files/myupload/assets/upload/pic.png''"
  "tempLocalScaledFile (sample_env f d) (sample_event ''files/myupload/assets/upload/pic.png'' ct m)
     = ''/tmp/files/myupload/assets/upload/2024-01-01T00:00:00.000Z_pic.png''"
  "bucketFilePath (sample_env f d) (sample_event ''files/myupload/assets/upload/pic.png'' ct m)
     = ''files/myimages/assets/upload/2024-01-01T00:00:00.000Z_pic.png''"
  by (simp_all add: filePath_def fileDir_def baseFileName_def scaledFilePath_def tempLocalFile_def
      tempLocalDir_def tempLocalScaledFile_def bucketFilePath_def path_join_def path_normalize_def
      path_dirname_def path_basename_def startsWith_def sample_event_def sample_env_def)

lemma artifact_paths:
  "filePath event_artifact = ''files/myimages/assets/upload/2024-01-01T00:00:00.000Z_pic.png''"
  "fileDir event_artifact = ''files/myimages/assets/upload''"
  "tempLocalDir (sample_env f d) event_artifact = ''/tmp/files/myimages/assets/upload''"
  "tempLocalFile (sample_env f d) event_artifact
     = ''/tmp/files/myimages/assets/upload/2024-01-01T00:00:00.000Z_pic.png''"
  "tempLocalScaledFile (sample_env f d) event_artifact
     = ''/tmp/files/myimages/assets/upload/2024-01-01T00:00:00.000Z_2024-01-01T00:00:00.000Z_pic.png''"
  "bucketFilePath (sample_env f d) event_artifact
     = ''files/myimages/assets/images/2024-01-01T00:00:00.000Z_2024-01-01T00:00:00.000Z_pic.png''"
  "bucket event_artifact = ''firechat.appspot.com''"
  "metadata event_artifact = None"
  "is_image event_artifact"
  by (simp_all add: filePath_def fileDir_def baseFileName_def scaledFilePath_def tempLocalFile_def
      tempLocalDir_def tempLocalScaledFile_def bucketFilePath_def path_join_def path_normalize_def
      path_dirname_def path_basename_def startsWith_def is_image_def event_artifact_def
      sample_env_def)

lemma sample_event_simps:
  "bucket (sample_event n ct m) = ''firechat.appspot.com''"
  "metadata (sample_event n ct m) = Some m"
  "is_image (sample_event n (Some ''image/png'') m)"
  by (simp_all add: sample_event_def is_image_def startsWith_def)

lemma sample_env_simps:
  "fault (sample_env f d) = f"
  "image_size (sample_env f d) b =
     (if b = original_png then Some d
      else if b = scaled_png then Some (resize_to_height 1080 d) else None)"
  "convert (sample_env f d) g b =
     (if g = ''x1080'' \<and> b = original_png then Some scaled_png else None)"
  "signed_url (sample_env f d) x =
     ''https://storage.googleapis.com/'' @ fst x @ ''/'' @ snd x @ ''?X-Goog-Signature=00''"
  by (simp_all add: sample_env_def)

lemmas eval_simps = sample_paths nested_paths sample_event_simps sample_env_simps endsWith_def
  startsWith_def bnd_def ret_def throw_def accept_def reject_def logc_def mkdirp_def download_def
  statSync_def sizeOf_def spawn_convert_def copyFileSync_def upload_def getSignedUrl_def
  unlinkSync_def delete_def update_def doc_def messageOrigin_def
  sample_world_def world_upload_def world_nested_def
  event_upload_def event_docs_A_def event_slash_docs_A_def event_no_origin_def
  event_nested_upload_def never_def upload_fails_def delete_fails_def original_png_def scaled_png_def

lemmas run_defs = run_result_def run_world_def run_calls_def imgDownscale_def

section \<open>The destination key is never the original key\<close>

text \<open>The last segment of the destination key ends in an underscore followed by the base
  name of the original: normalising keeps the last segment of a path, and the replacement
  rewrites a stretch that ends in a slash. So the destination key is longer in its last
  segment than the original key, and the upload never overwrites the original.\<close>

lemma takeWhile_free: "CHR ''/'' \<notin> set s \<Longrightarrow> takeWhile (\<lambda>c. c \<noteq> CHR ''/'') s = s"
  by (induction s) auto

lemma last_segment_slash: "last_segment (a @ CHR ''/'' # b) = last_segment b"
proof (cases "CHR ''/'' \<in> set b")
  case True
  then show ?thesis by (auto simp add: last_segment_def takeWhile_append)
next
  case False
  then have tw: "takeWhile (\<lambda>c. c \<noteq> CHR ''/'') (rev b) = rev b"
    by (simp add: takeWhile_free)
  from False show ?thesis by (simp add: last_segment_def takeWhile_append tw)
qed

lemma last_segment_free: "CHR ''/'' \<notin> set s \<Longrightarrow> last_segment s = s"
  by (simp add: last_segment_def takeWhile_free)

lemma last_segment_no_slash: "CHR ''/'' \<notin> set (last_segment s)"
  unfolding last_segment_def using set_takeWhileD by fastforce

lemma last_segment_split:
  "s = last_segment s \<or> (\<exists>a. s = a @ CHR ''/'' # last_segment s)"
proof -
  let ?d = "dropWhile (\<lambda>c. c \<noteq> CHR ''/'') (rev s)"
  have id: "rev s = rev (last_segment s) @ ?d"
    by (simp add: last_segment_def)
  show ?thesis
  proof (cases ?d)
    case Nil
    with id have "rev s = rev (last_segment s)" by simp
    then show ?thesis by simp
  next
    case (Cons c cs)
    have "?d \<noteq> [] \<Longrightarrow> \<not> (hd ?d \<noteq> CHR ''/'')"
      by (rule hd_dropWhile)
    with Cons have "c = CHR ''/''" by simp
    with Cons id have "rev s = rev (last_segment s) @ CHR ''/'' # cs" by simp
    then have "rev (rev s) = rev (rev (last_segment s) @ CHR ''/'' # cs)" by simp
    then have "s = rev cs @ CHR ''/'' # last_segment s" by simp
    then show ?thesis by blast
  qed
qed

lemma last_segment_append_free:
  "CHR ''/'' \<notin> set t \<Longrightarrow> last_segment (s @ t) = last_segment s @ t"
  by (simp add: last_segment_def takeWhile_append takeWhile_free)

lemma basename_no_slash: "CHR ''/'' \<notin> set (path_basename p)"
  unfolding path_basename_def using set_takeWhileD by fastforce

lemma basename_last_segment:
  "last_segment p \<noteq> [] \<Longrightarrow> path_basename p = last_segment p"
proof -
  assume "last_segment p \<noteq> []"
  then have "rev p \<noteq> [] \<and> hd (rev p) \<noteq> CHR ''/''"
    by (cases "rev p") (auto simp add: last_segment_def split: if_splits)
  then have "dropWhile (\<lambda>c. c = CHR ''/'') (rev p) = rev p"
    by (cases "rev p") auto
  then show ?thesis by (simp add: path_basename_def last_segment_def)
qed

lemma last_segment_last: "last_segment s \<noteq> [] \<Longrightarrow> s \<noteq> [] \<and> last s \<noteq> CHR ''/''"
proof -
  assume ne: "last_segment s \<noteq> []"
  from last_segment_split [of s] show ?thesis
  proof
    assume "s = last_segment s"
    with ne last_segment_no_slash [of s] show ?thesis
      by (metis last_in_set)
  next
    assume "\<exists>a. s = a @ CHR ''/'' # last_segment s"
    then obtain a where a: "s = a @ CHR ''/'' # last_segment s" ..
    with ne have "last s = last (last_segment s)" by (metis last_appendR last_ConsR list.distinct(1))
    with ne a last_segment_no_slash [of s] show ?thesis
      by (metis last_in_set append_is_Nil_conv list.distinct(1))
  qed
qed

lemma last_segment_Cons:
  "last_segment (c # t) =
     (if CHR ''/'' \<in> set t then last_segment t else if c = CHR ''/'' then t else c # t)"
proof (cases "CHR ''/'' \<in> set t")
  case True
  from last_segment_split [of t] show ?thesis
  proof
    assume "t = last_segment t"
    with True last_segment_no_slash [of t] show ?thesis by metis
  next
    assume "\<exists>a. t = a @ CHR ''/'' # last_segment t"
    then obtain a where "t = a @ CHR ''/'' # last_segment t" ..
    then have "c # t = (c # a) @ CHR ''/'' # last_segment t" by simp
    then have "last_segment (c # t) = last_segment (last_segment t)"
      by (metis last_segment_slash)
    with True show ?thesis by (simp add: last_segment_free last_segment_no_slash)
  qed
next
  case False
  show ?thesis
  proof (cases "c = CHR ''/''")
    case True
    have "last_segment ([] @ CHR ''/'' # t) = last_segment t" by (rule last_segment_slash)
    with True False show ?thesis by (simp add: last_segment_free)
  next
    case c: False
    with False have "CHR ''/'' \<notin> set (c # t)" by simp
    then have "last_segment (c # t) = c # t" by (rule last_segment_free)
    with False c show ?thesis by simp
  qed
qed

lemma startsWith_iff: "startsWith s p = (\<exists>r. s = p @ r)"
proof
  assume "startsWith s p"
  then have "s = p @ drop (length p) s"
    by (metis append_take_drop_id startsWith_def)
  then show "\<exists>r. s = p @ r" ..
next
  assume "\<exists>r. s = p @ r"
  then show "startsWith s p" by (auto simp add: startsWith_def)
qed

lemma replace_match: "c # cs = pat @ r \<Longrightarrow> replace (c # cs) pat rep = rep @ r"
proof -
  assume eq: "c # cs = pat @ r"
  then have "startsWith (c # cs) pat" unfolding startsWith_iff by blast
  moreover from eq have "drop (length pat) (c # cs) = r" by simp
  ultimately show ?thesis by simp
qed

lemma replace_free: "CHR ''/'' \<notin> set s \<Longrightarrow> replace s ''upload/'' rep = s"
proof (induction s)
  case Nil
  then show ?case by simp
next
  case (Cons c cs)
  have "\<not> startsWith (c # cs) ''upload/''"
  proof
    assume "startsWith (c # cs) ''upload/''"
    then obtain r where "c # cs = ''upload/'' @ r" unfolding startsWith_iff ..
    then have "CHR ''/'' \<in> set (c # cs)" by simp
    with Cons.prems show False by simp
  qed
  with Cons show ?case by simp
qed

lemma replace_keeps_slash:
  "CHR ''/'' \<in> set s \<Longrightarrow> CHR ''/'' \<in> set (replace s ''upload/'' ''images/'')"
proof (induction s)
  case Nil
  then show ?case by simp
next
  case (Cons c cs)
  show ?case
  proof (cases "startsWith (c # cs) ''upload/''")
    case True
    then obtain r where "c # cs = ''upload/'' @ r" unfolding startsWith_iff ..
    then have "replace (c # cs) ''upload/'' ''images/'' = ''images/'' @ r"
      by (rule replace_match)
    then show ?thesis by simp
  next
    case False
    with Cons show ?thesis by auto
  qed
qed

lemma replace_last_segment:
  "last_segment (replace s ''upload/'' ''images/'') = last_segment s"
proof (induction s)
  case Nil
  then show ?case by simp
next
  case (Cons c cs)
  show ?case
  proof (cases "startsWith (c # cs) ''upload/''")
    case True
    then obtain r where eq: "c # cs = ''upload/'' @ r" unfolding startsWith_iff ..
    then have rp: "replace (c # cs) ''upload/'' ''images/'' = ''images/'' @ r"
      by (rule replace_match)
    have "last_segment (''upload'' @ CHR ''/'' # r) = last_segment r"
      by (rule last_segment_slash)
    with eq have l: "last_segment (c # cs) = last_segment r" by simp
    have "last_segment (''images'' @ CHR ''/'' # r) = last_segment r"
      by (rule last_segment_slash)
    with rp l show ?thesis by simp
  next
    case False
    show ?thesis
    proof (cases "CHR ''/'' \<in> set cs")
      case True
      with False Cons.IH replace_keeps_slash [OF True] show ?thesis
        by (simp add: last_segment_Cons)
    next
      case no: False
      then have "replace cs ''upload/'' ''images/'' = cs" by (rule replace_free)
      with False show ?thesis by simp
    qed
  qed
qed

lemma split_slash_nonempty: "split_slash s \<noteq> []"
  by (induction s) (auto split: list.splits)

lemma split_slash_append:
  "split_slash (a @ CHR ''/'' # b) = split_slash a @ split_slash b"
proof (induction a)
  case Nil
  then show ?case by simp
next
  case (Cons c a)
  then show ?case
    using split_slash_nonempty [of a] by (cases "split_slash a") auto
qed

lemma split_slash_free: "CHR ''/'' \<notin> set g \<Longrightarrow> split_slash g = [g]"
  by (induction g) auto

lemma split_slash_last_segment: "\<exists>ss. split_slash s = ss @ [last_segment s]"
proof -
  from last_segment_split [of s] show ?thesis
  proof
    assume "s = last_segment s"
    then have "split_slash s = [] @ [last_segment s]"
      using split_slash_free [OF last_segment_no_slash [of s]] by simp
    then show ?thesis by blast
  next
    assume "\<exists>a. s = a @ CHR ''/'' # last_segment s"
    then obtain a where "s = a @ CHR ''/'' # last_segment s" ..
    then have "split_slash s = split_slash a @ split_slash (last_segment s)"
      by (metis split_slash_append)
    then have "split_slash s = split_slash a @ [last_segment s]"
      using split_slash_free [OF last_segment_no_slash [of s]] by simp
    then show ?thesis by blast
  qed
qed

lemma normalizeString_keeps_last:
  "g \<noteq> [] \<Longrightarrow> g \<noteq> ''.'' \<Longrightarrow> g \<noteq> ''..'' \<Longrightarrow>
     \<exists>l. normalizeString al res (ss @ [g]) = l @ [g]"
proof (induction ss arbitrary: res)
  case Nil
  then show ?case by simp
next
  case (Cons s ss)
  from Cons.IH [OF Cons.prems] have ih: "\<And>r. \<exists>l. normalizeString al r (ss @ [g]) = l @ [g]" .
  show ?case
    by (cases res) (simp_all add: ih)
qed

lemma join_slash_snoc:
  "join_slash (l @ [g]) = (if l = [] then g else join_slash l @ CHR ''/'' # g)"
  by (induction l rule: join_slash.induct) simp_all

lemma join_slash_last_segment:
  "CHR ''/'' \<notin> set g \<Longrightarrow> last_segment (join_slash (l @ [g])) = g"
  by (simp add: join_slash_snoc last_segment_slash last_segment_free)

lemma normalize_last_segment:
  assumes "last_segment x = g" and "g \<noteq> []" and "g \<noteq> ''.''" and "g \<noteq> ''..''"
  shows "last_segment (path_normalize x) = g"
proof -
  from assms(1,2) last_segment_last [of x] have x: "x \<noteq> []" "last x \<noteq> CHR ''/''" by auto
  from split_slash_last_segment [of x] assms(1) obtain ss where "split_slash x = ss @ [g]"
    by auto
  with normalizeString_keeps_last [OF assms(2-4)]
  obtain l where l: "normalizeString (hd x \<noteq> CHR ''/'') [] (split_slash x) = l @ [g]"
    by metis
  have free: "CHR ''/'' \<notin> set g" using assms(1) last_segment_no_slash by metis
  let ?q = "join_slash (l @ [g])"
  have q: "last_segment ?q = g" using free by (rule join_slash_last_segment)
  with assms(2) have qne: "?q \<noteq> []" by (auto simp add: last_segment_def)
  have "last_segment ([] @ CHR ''/'' # ?q) = last_segment ?q" by (rule last_segment_slash)
  with q have q': "last_segment (CHR ''/'' # ?q) = g" by simp
  from x l qne q q' show ?thesis
    by (simp add: path_normalize_def Let_def)
qed

lemma dirname_nonempty: "path_dirname p \<noteq> []"
  by (simp add: path_dirname_def split: list.splits)

lemma destination_differs: "bucketFilePath E object \<noteq> filePath object"
proof
  assume eq: "bucketFilePath E object = filePath object"
  let ?b = "baseFileName object"
  let ?g = "last_segment (now E) @ ''_'' @ ?b"
  let ?name = "now E @ ''_'' @ ?b"
  have bfree: "CHR ''/'' \<notin> set (''_'' @ ?b)"
    using basename_no_slash [of "filePath object"] by (simp add: baseFileName_def)
  then have name: "last_segment ?name = ?g" by (rule last_segment_append_free)
  have under: "\<And>h. CHR ''_'' \<in> set h \<Longrightarrow> h \<noteq> [] \<and> h \<noteq> ''.'' \<and> h \<noteq> ''..''"
    by auto
  have "CHR ''_'' \<in> set ?g" by simp
  from under [OF this] have g: "?g \<noteq> []" "?g \<noteq> ''.''" "?g \<noteq> ''..''"
    by blast+
  have "last_segment (fileDir object @ CHR ''/'' # ?name) = last_segment ?name"
    by (rule last_segment_slash)
  with name have "last_segment (fileDir object @ CHR ''/'' # ?name) = ?g" by simp
  then have "last_segment (path_normalize (fileDir object @ CHR ''/'' # ?name)) = ?g"
    using g by (rule normalize_last_segment)
  moreover have "path_join [fileDir object, ?name]
                   = path_normalize (fileDir object @ CHR ''/'' # ?name)"
    using dirname_nonempty [of "filePath object"] by (simp add: path_join_def fileDir_def)
  ultimately have "last_segment (path_join [fileDir object, ?name]) = ?g" by simp
  then have "last_segment (scaledFilePath E object) = ?g"
    unfolding scaledFilePath_def using g by (rule normalize_last_segment)
  then have "last_segment (bucketFilePath E object) = ?g"
    by (simp add: bucketFilePath_def replace_last_segment)
  with eq have l: "last_segment (filePath object) = ?g" by simp
  with g(1) have "path_basename (filePath object) = ?g"
    using basename_last_segment [of "filePath object"] by simp
  then have "length ?b = length ?g" by (simp add: baseFileName_def)
  then show False by simp
qed

section \<open>Deletion of the original\<close>

text \<open>
  Claim C1, as stated: in every run the original object is deleted if and only if the scaled
  artifact was uploaded and a signed URL was obtained. The delete request is a call of its own
  and can be refused: with a service account that may not delete objects the artifact is
  uploaded and signed, and the original stays.
\<close>

theorem delete_refused_counterexample:
  "\<not> (original_deleted (sample_env delete_fails (2000, 1000)) event_upload world_upload
        \<longleftrightarrow> artifact_uploaded (sample_env delete_fails (2000, 1000)) event_upload world_upload
            \<and> url_obtained (sample_env delete_fails (2000, 1000)) event_upload world_upload)"
  by (simp add: original_deleted_def artifact_uploaded_def url_obtained_def run_defs eval_simps)

text \<open>
  Claim C1, amended. The original object is deleted only if the scaled artifact was uploaded
  to its new key and a signed URL was obtained for it, and once it is deleted no object is
  left under its key. If the upload or the signing fails, no delete is requested at all and
  the bucket holds under the original key what it held before. After both have succeeded the
  original is deleted unless one of the two local unlinks or the delete request itself
  throws, and then the original is still in the bucket, unchanged.
\<close>

theorem original_deleted_only_after_upload_and_url:
  "(original_deleted E object w \<longrightarrow>
        artifact_uploaded E object w \<and> url_obtained E object w
        \<and> storage (run_world E object w) (bucket object, filePath object) = None)
   \<and> (\<not> (artifact_uploaded E object w \<and> url_obtained E object w) \<longrightarrow>
        (\<forall>e \<in> set (run_calls E object w). \<not> is_delete (fst e))
        \<and> storage (run_world E object w) (bucket object, filePath object)
            = storage w (bucket object, filePath object))
   \<and> (artifact_uploaded E object w \<and> url_obtained E object w \<longrightarrow>
        original_deleted E object w
        \<or> (run_result E object w = Inl (Rejected (UnlinkSync (tempLocalScaledFile E object)))
            \<or> run_result E object w = Inl (Rejected (UnlinkSync (tempLocalFile E object)))
            \<or> run_result E object w = Inl (Rejected (Delete (bucket object) (filePath object))))
           \<and> storage w (bucket object, filePath object) \<noteq> None
           \<and> storage (run_world E object w) (bucket object, filePath object)
               = storage w (bucket object, filePath object))"
proof -
  let ?up = "(Upload (bucket object) (tempLocalScaledFile E object) (bucketFilePath E object), True)"
  let ?url = "(GetSignedUrl (bucket object) (bucketFilePath E object), True)"
  let ?del = "(Delete (bucket object) (filePath object), True)"
  let ?Q = "\<lambda>r w' calls.
     (?del \<in> set calls \<longrightarrow> ?up \<in> set calls \<and> ?url \<in> set calls)
     \<and> (\<not> (?up \<in> set calls \<and> ?url \<in> set calls) \<longrightarrow>
          (\<forall>e \<in> set calls. \<not> is_delete (fst e)))
     \<and> (?up \<in> set calls \<and> ?url \<in> set calls \<longrightarrow>
          ?del \<in> set calls
          \<or> r = Inl (Rejected (UnlinkSync (tempLocalScaledFile E object)))
          \<or> r = Inl (Rejected (UnlinkSync (tempLocalFile E object)))
          \<or> r = Inl (Rejected (Delete (bucket object) (filePath object))))"
  let ?S = "\<lambda>(r :: error + result) w' calls.
     (?del \<in> set calls \<longrightarrow> storage w' (bucket object, filePath object) = None)
     \<and> (?up \<in> set calls \<and> ?del \<notin> set calls \<longrightarrow>
          storage w' (bucket object, filePath object) \<noteq> None)
     \<and> (?del \<notin> set calls \<longrightarrow>
          (\<forall>key. key \<noteq> bucketFilePath E object \<longrightarrow>
             storage w' (bucket object, key) = storage w (bucket object, key)))"
  have "wp (imgDownscale E object) (\<lambda>r w'. ?Q r w' (drop (length (trace w)) (trace w'))) w"
    unfolding imgDownscale_def
    by (cases "1080 < fst (the (image_size E (the (storage w (bucket object, filePath object)))))")
       (simp_all add: wp_rules logc_simps split: sum.split cong: wp_cong)
  then have q: "?Q (run_result E object w) (run_world E object w) (run_calls E object w)"
    by (rule run_wp)
  have "wp (imgDownscale E object) (\<lambda>r w'. ?S r w' (drop (length (trace w)) (trace w'))) w"
    unfolding imgDownscale_def
    by (cases "1080 < fst (the (image_size E (the (storage w (bucket object, filePath object)))))")
       (simp_all add: wp_rules logc_simps split: sum.split cong: wp_cong)
  then have s: "?S (run_result E object w) (run_world E object w) (run_calls E object w)"
    by (rule run_wp)
  have ne: "filePath object \<noteq> bucketFilePath E object"
    using destination_differs [of E object] by simp
  from s ne have same: "?del \<notin> set (run_calls E object w) \<Longrightarrow>
      storage (run_world E object w) (bucket object, filePath object)
        = storage w (bucket object, filePath object)"
    by blast
  from s have gone: "?del \<in> set (run_calls E object w) \<Longrightarrow>
      storage (run_world E object w) (bucket object, filePath object) = None"
    by blast
  from s have there: "?up \<in> set (run_calls E object w) \<Longrightarrow> ?del \<notin> set (run_calls E object w) \<Longrightarrow>
      storage (run_world E object w) (bucket object, filePath object) \<noteq> None"
    by blast
  from q same gone there show ?thesis
    unfolding original_deleted_def artifact_uploaded_def url_obtained_def by metis
qed

theorem original_deleted_only_after_upload_and_url_witness:
  "artifact_uploaded (sample_env never (2000, 1000)) event_upload world_upload
   \<and> url_obtained (sample_env never (2000, 1000)) event_upload world_upload
   \<and> original_deleted (sample_env never (2000, 1000)) event_upload world_upload
   \<and> storage (run_world (sample_env never (2000, 1000)) event_upload world_upload)
        (bucket event_upload, filePath event_upload) = None
   \<and> \<not> artifact_uploaded (sample_env upload_fails (2000, 1000)) event_upload world_upload
   \<and> storage world_upload (bucket event_upload, filePath event_upload) = Some original_png
   \<and> storage (run_world (sample_env upload_fails (2000, 1000)) event_upload world_upload)
        (bucket event_upload, filePath event_upload) = Some original_png
   \<and> artifact_uploaded (sample_env delete_fails (2000, 1000)) event_upload world_upload
   \<and> url_obtained (sample_env delete_fails (2000, 1000)) event_upload world_upload
   \<and> \<not> original_deleted (sample_env delete_fails (2000, 1000)) event_upload world_upload
   \<and> storage (run_world (sample_env delete_fails (2000, 1000)) event_upload world_upload)
        (bucket event_upload, filePath event_upload) = Some original_png"
proof -
  have there: "storage world_upload (bucket event_upload, filePath event_upload) = Some original_png"
    by (simp add: eval_simps)
  have up: "artifact_uploaded (sample_env never (2000, 1000)) event_upload world_upload"
    by (simp add: artifact_uploaded_def run_defs eval_simps)
  have url: "url_obtained (sample_env never (2000, 1000)) event_upload world_upload"
    by (simp add: url_obtained_def run_defs eval_simps)
  have res: "\<exists>m u. run_result (sample_env never (2000, 1000)) event_upload world_upload
               = Inr (Result m u)"
    by (simp add: run_defs eval_simps)
  have del: "original_deleted (sample_env never (2000, 1000)) event_upload world_upload"
    using original_deleted_only_after_upload_and_url
            [of "sample_env never (2000, 1000)" event_upload world_upload] up url res
    by auto
  then have gone: "storage (run_world (sample_env never (2000, 1000)) event_upload world_upload)
                (bucket event_upload, filePath event_upload) = None"
    using original_deleted_only_after_upload_and_url
            [of "sample_env never (2000, 1000)" event_upload world_upload]
    by blast
  have no_up: "\<not> artifact_uploaded (sample_env upload_fails (2000, 1000)) event_upload world_upload"
    by (simp add: artifact_uploaded_def run_defs eval_simps)
  then have kept: "storage (run_world (sample_env upload_fails (2000, 1000)) event_upload world_upload)
                (bucket event_upload, filePath event_upload) = Some original_png"
    using original_deleted_only_after_upload_and_url
            [of "sample_env upload_fails (2000, 1000)" event_upload world_upload] there
    by metis
  have up2: "artifact_uploaded (sample_env delete_fails (2000, 1000)) event_upload world_upload"
    by (simp add: artifact_uploaded_def run_defs eval_simps)
  have url2: "url_obtained (sample_env delete_fails (2000, 1000)) event_upload world_upload"
    by (simp add: url_obtained_def run_defs eval_simps)
  have no_del: "\<not> original_deleted (sample_env delete_fails (2000, 1000)) event_upload world_upload"
    by (simp add: original_deleted_def run_defs eval_simps)
  with up2 url2 have kept2: "storage (run_world (sample_env delete_fails (2000, 1000)) event_upload world_upload)
                (bucket event_upload, filePath event_upload) = Some original_png"
    using original_deleted_only_after_upload_and_url
            [of "sample_env delete_fails (2000, 1000)" event_upload world_upload] there
    by metis
  from up url del gone no_up there kept up2 url2 no_del kept2 show ?thesis by blast
qed

section \<open>The transformer\<close>

text \<open>
  Claim C2 holds in its first part: for an image wider than 1080 pixels that was downloaded and
  decoded, the handler runs \<^verbatim>\<open>convert\<close> with the geometry \<^verbatim>\<open>x1080\<close> (height 1080,
  width left free) on the scratch file, and never copies the file.
\<close>

lemma wide_image_resized_to_height_1080:
  assumes "storage w (bucket object, filePath object) = Some content"
      and "image_size E content = Some (width, height)"
      and "1080 < width"
      and "(SizeOf (tempLocalFile E object), True) \<in> set (run_calls E object w)"
  shows "((Spawn ''convert'' [tempLocalFile E object, ''-resize'', ''x1080'',
             tempLocalScaledFile E object], True) \<in> set (run_calls E object w)
          \<or> (Spawn ''convert'' [tempLocalFile E object, ''-resize'', ''x1080'',
             tempLocalScaledFile E object], False) \<in> set (run_calls E object w))
         \<and> (\<forall>src dst ok. (CopyFileSync src dst, ok) \<notin> set (run_calls E object w))"
proof -
  let ?sp = "Spawn ''convert'' [tempLocalFile E object, ''-resize'', ''x1080'',
               tempLocalScaledFile E object]"
  let ?Q = "\<lambda>r w' calls.
     ((SizeOf (tempLocalFile E object), True) \<in> set calls \<longrightarrow>
        (?sp, True) \<in> set calls \<or> (?sp, False) \<in> set calls)
     \<and> (\<forall>src dst ok. (CopyFileSync src dst, ok) \<notin> set calls)"
  have "wp (imgDownscale E object) (\<lambda>r w'. ?Q r w' (drop (length (trace w)) (trace w'))) w"
    unfolding imgDownscale_def using assms(1-3)
    by (simp add: wp_rules logc_simps split: sum.split cong: wp_cong)
  then have "?Q (run_result E object w) (run_world E object w) (run_calls E object w)"
    by (rule run_wp)
  with assms(4) show ?thesis by blast
qed

text \<open>
  Claim C2 fails in its last part (no image is ever enlarged). The handler tests the width
  and resizes to a height: a picture of 2000 by 500 pixels is wider than 1080, so
  \<^verbatim>\<open>convert -resize x1080\<close> runs on it, and what is published is 4320 by 1080 pixels,
  larger than the original in both directions.
\<close>

theorem wide_short_image_is_enlarged:
  "image_size (sample_env never (2000, 500)) original_png = Some (2000, 500)
   \<and> (Spawn ''convert''
         [tempLocalFile (sample_env never (2000, 500)) event_upload, ''-resize'', ''x1080'',
          tempLocalScaledFile (sample_env never (2000, 500)) event_upload], True)
       \<in> set (run_calls (sample_env never (2000, 500)) event_upload world_upload)
   \<and> storage (run_world (sample_env never (2000, 500)) event_upload world_upload)
        (bucket event_upload, bucketFilePath (sample_env never (2000, 500)) event_upload)
       = Some scaled_png
   \<and> image_size (sample_env never (2000, 500)) scaled_png = Some (4320, 1080)"
  by (simp add: resize_to_height_def run_defs eval_simps)

text \<open>
  Claim C3. For an image that decodes and is at most 1080 pixels wide, the run never spawns
  the resize, and once the upload has succeeded the bucket is the bucket of before with the
  original's bytes stored under the destination key (and the original removed, when the run
  got as far as deleting it): the artifact is a byte-for-byte copy.
\<close>

theorem narrow_image_copied_unchanged:
  assumes "storage w (bucket object, filePath object) = Some content"
      and "image_size E content = Some (width, height)"
      and "width \<le> 1080"
  shows "(\<forall>e \<in> set (run_calls E object w). \<not> is_resize (fst e))
     \<and> (artifact_uploaded E object w \<longrightarrow>
          storage (run_world E object w) =
            (if original_deleted E object w
             then ((storage w)((bucket object, bucketFilePath E object) \<mapsto> content))
                    ((bucket object, filePath object) := None)
             else (storage w)((bucket object, bucketFilePath E object) \<mapsto> content)))"
proof -
  let ?up = "(Upload (bucket object) (tempLocalScaledFile E object) (bucketFilePath E object), True)"
  let ?del = "(Delete (bucket object) (filePath object), True)"
  let ?Q = "\<lambda>r w' calls.
     (\<forall>e \<in> set calls. \<not> is_resize (fst e))
     \<and> (?up \<in> set calls \<longrightarrow>
          storage w' =
            (if ?del \<in> set calls
             then ((storage w)((bucket object, bucketFilePath E object) \<mapsto> content))
                    ((bucket object, filePath object) := None)
             else (storage w)((bucket object, bucketFilePath E object) \<mapsto> content)))"
  have "wp (imgDownscale E object) (\<lambda>r w'. ?Q r w' (drop (length (trace w)) (trace w'))) w"
    unfolding imgDownscale_def using assms
    by (simp add: wp_rules logc_simps split: sum.split cong: wp_cong)
  then have "?Q (run_result E object w) (run_world E object w) (run_calls E object w)"
    by (rule run_wp)
  then show ?thesis
    unfolding original_deleted_def artifact_uploaded_def .
qed

theorem narrow_image_copied_unchanged_witness:
  "storage world_upload (bucket event_upload, filePath event_upload) = Some original_png
   \<and> image_size (sample_env never (800, 600)) original_png = Some (800, 600)
   \<and> (800::nat) \<le> 1080
   \<and> artifact_uploaded (sample_env never (800, 600)) event_upload world_upload
   \<and> storage (run_world (sample_env never (800, 600)) event_upload world_upload)
        (bucket event_upload, bucketFilePath (sample_env never (800, 600)) event_upload)
       = Some original_png
   \<and> filter (\<lambda>e. is_resize (fst e))
        (run_calls (sample_env never (800, 600)) event_upload world_upload) = []"
proof -
  have a: "storage world_upload (bucket event_upload, filePath event_upload) = Some original_png"
    by (simp add: eval_simps)
  have b: "image_size (sample_env never (800, 600)) original_png = Some (800, 600)"
    by (simp add: eval_simps)
  have c: "artifact_uploaded (sample_env never (800, 600)) event_upload world_upload"
    by (simp add: artifact_uploaded_def run_defs eval_simps)
  from narrow_image_copied_unchanged [OF a b] c show ?thesis
    using a b by (simp add: event_upload_def sample_paths filter_empty_conv)
qed

section \<open>The destination key\<close>

text \<open>
  Claim C4 says that the destination key is the original's directory with the staging
  directory \<^verbatim>\<open>upload\<close> turned into \<^verbatim>\<open>images\<close>, so that the output never lies in an
  \<^verbatim>\<open>upload\<close> directory and cannot trigger the handler again. The handler calls
  \<^verbatim>\<open>replace("upload/", "images/")\<close>, which rewrites the first occurrence in the whole
  path. For the object \<^verbatim>\<open>files/myupload/assets/upload/pic.png\<close> the first occurrence is
  in the user directory: the artifact is stored under
  \<^verbatim>\<open>files/myimages/assets/upload/...\<close>, a directory that ends in \<^verbatim>\<open>/upload\<close>. The
  event for that new object passes the filter, and the second run deletes the artifact that
  the first run published.
\<close>

theorem first_occurrence_replaced_lands_in_upload:
  "filePath event_nested_upload = ''files/myupload/assets/upload/pic.png''
   \<and> bucketFilePath (sample_env never (800, 600)) event_nested_upload
       = ''files/myimages/assets/upload/2024-01-01T00:00:00.000Z_pic.png''
   \<and> endsWith (path_dirname (bucketFilePath (sample_env never (800, 600)) event_nested_upload))
        ''/upload''
   \<and> artifact_uploaded (sample_env never (800, 600)) event_nested_upload world_nested
   \<and> original_deleted (sample_env never (800, 600)) event_artifact
        (run_world (sample_env never (800, 600)) event_nested_upload world_nested)"
  by (simp add: artifact_uploaded_def original_deleted_def run_defs eval_simps path_dirname_def
      artifact_paths)

section \<open>Local temporary files\<close>

text \<open>
  Claim C7, as stated: on every exit path the scratch file and the scaled file have been
  removed. The two unlinks stand behind the upload and the signing, with nothing that runs
  them when an earlier call throws: when the upload fails, both files created by the run are
  still on the local disk at the end.
\<close>

theorem upload_failure_leaves_temp_files_counterexample:
  "run_result (sample_env upload_fails (800, 600)) event_upload world_upload
     = Inl (Rejected (Upload (bucket event_upload)
              (tempLocalScaledFile (sample_env upload_fails (800, 600)) event_upload)
              (bucketFilePath (sample_env upload_fails (800, 600)) event_upload)))
   \<and> files world_upload (tempLocalFile (sample_env upload_fails (800, 600)) event_upload) = None
   \<and> files (run_world (sample_env upload_fails (800, 600)) event_upload world_upload)
        (tempLocalFile (sample_env upload_fails (800, 600)) event_upload) = Some original_png
   \<and> files world_upload (tempLocalScaledFile (sample_env upload_fails (800, 600)) event_upload) = None
   \<and> files (run_world (sample_env upload_fails (800, 600)) event_upload world_upload)
        (tempLocalScaledFile (sample_env upload_fails (800, 600)) event_upload) = Some original_png"
  by (simp add: run_defs eval_simps)

text \<open>
  Claim C7, amended. On the exits that lie behind the two unlinks (the normal return, and an
  error raised by the delete of the original or by the document update) neither the scratch
  file nor the scaled file is left on the local disk; a run that the filter ends leaves the
  world as it found it, so it creates no file. On an error at an earlier call the files
  written so far may remain.
\<close>

theorem temp_files_removed_behind_unlinks:
  "(past_cleanup (run_result E object w) \<longrightarrow>
       files (run_world E object w) (tempLocalFile E object) = None
     \<and> files (run_world E object w) (tempLocalScaledFile E object) = None)
   \<and> (run_result E object w = Inr Null \<longrightarrow> run_world E object w = w)"
proof -
  let ?Q = "\<lambda>r w' (calls :: (call \<times> bool) list).
     (past_cleanup r \<longrightarrow>
        files w' (tempLocalFile E object) = None \<and> files w' (tempLocalScaledFile E object) = None)
     \<and> (r = Inr Null \<longrightarrow> w' = w)"
  have "wp (imgDownscale E object) (\<lambda>r w'. ?Q r w' (drop (length (trace w)) (trace w'))) w"
    unfolding imgDownscale_def
    by (cases "1080 < fst (the (image_size E (the (storage w (bucket object, filePath object)))))")
       (simp_all add: wp_rules logc_simps past_cleanup_def split: sum.split cong: wp_cong)
  then show ?thesis
    by (rule run_wp)
qed

theorem temp_files_removed_behind_unlinks_witness:
  "past_cleanup (run_result (sample_env never (2000, 1000)) event_upload world_upload)
   \<and> files (run_world (sample_env never (2000, 1000)) event_upload world_upload)
        (tempLocalFile (sample_env never (2000, 1000)) event_upload) = None
   \<and> files (run_world (sample_env never (2000, 1000)) event_upload world_upload)
        (tempLocalScaledFile (sample_env never (2000, 1000)) event_upload) = None
   \<and> run_result (sample_env never (800, 600)) event_text world_upload = Inr Null
   \<and> run_world (sample_env never (800, 600)) event_text world_upload = world_upload"
proof -
  have past: "past_cleanup (run_result (sample_env never (2000, 1000)) event_upload world_upload)"
    by (simp add: past_cleanup_def run_defs eval_simps)
  have skip: "run_result (sample_env never (800, 600)) event_text world_upload = Inr Null"
    by (simp add: run_defs event_text_def sample_event_def is_image_def startsWith_def ret_def)
  from temp_files_removed_behind_unlinks
         [of "sample_env never (2000, 1000)" event_upload world_upload]
       temp_files_removed_behind_unlinks
         [of "sample_env never (800, 600)" event_text world_upload]
       past skip
  show ?thesis by blast
qed

section \<open>The origin document\<close>

text \<open>
  Claim C8, as stated: without a \<^verbatim>\<open>messageOrigin\<close> key no update is attempted and the run
  still completes successfully. The handler passes \<^verbatim>\<open>object.metadata.messageOrigin\<close> to
  \<^verbatim>\<open>doc\<close> without a test; for an event whose metadata has no such key the run has deleted
  the original and then ends with the error that \<^verbatim>\<open>doc(undefined)\<close> throws.
\<close>

theorem missing_origin_counterexample:
  "\<not> has_origin event_no_origin
   \<and> original_deleted (sample_env never (800, 600)) event_no_origin world_upload
   \<and> run_result (sample_env never (800, 600)) event_no_origin world_upload = Inl InvalidResourcePath"
  by (simp add: has_origin_def original_deleted_def run_defs eval_simps)

text \<open>
  Claim C8, amended. For an event without a \<^verbatim>\<open>messageOrigin\<close> key no document update is
  made, but the run never returns a result: once it has got as far as deleting the original
  it ends with an error, the type error of reading a key of absent metadata or the
  invalid-path error of \<^verbatim>\<open>doc(undefined)\<close>.
\<close>

theorem missing_origin_fails_after_delete:
  "\<not> has_origin object \<Longrightarrow>
     (\<forall>e \<in> set (run_calls E object w). \<not> is_doc_update (fst e))
     \<and> (\<forall>m u. run_result E object w \<noteq> Inr (Result m u))
     \<and> (original_deleted E object w \<longrightarrow>
          run_result E object w = Inl TypeError \<or> run_result E object w = Inl InvalidResourcePath)"
proof -
  assume "\<not> has_origin object"
  then have h: "metadata object = None
      \<or> doc (map_of (the (metadata object)) ''messageOrigin'') = Inl InvalidResourcePath"
    by (auto simp add: has_origin_def doc_absent split: option.splits)
  let ?del = "(Delete (bucket object) (filePath object), True)"
  let ?Q = "\<lambda>r w' calls.
     (\<forall>e \<in> set calls. \<not> is_doc_update (fst e))
     \<and> (\<forall>m u. r \<noteq> Inr (Result m u))
     \<and> (?del \<in> set calls \<longrightarrow> r = Inl TypeError \<or> r = Inl InvalidResourcePath)"
  have "wp (imgDownscale E object) (\<lambda>r w'. ?Q r w' (drop (length (trace w)) (trace w'))) w"
    unfolding imgDownscale_def using h
    by (cases "1080 < fst (the (image_size E (the (storage w (bucket object, filePath object)))))")
       (auto simp add: wp_rules logc_simps cong: wp_cong)
  then have "?Q (run_result E object w) (run_world E object w) (run_calls E object w)"
    by (rule run_wp)
  then show ?thesis
    unfolding original_deleted_def .
qed

theorem missing_origin_fails_after_delete_witness:
  "\<not> has_origin event_no_origin
   \<and> original_deleted (sample_env never (800, 600)) event_no_origin world_upload
   \<and> (run_result (sample_env never (800, 600)) event_no_origin world_upload = Inl TypeError
      \<or> run_result (sample_env never (800, 600)) event_no_origin world_upload
          = Inl InvalidResourcePath)
   \<and> filter (\<lambda>e. is_doc_update (fst e))
        (run_calls (sample_env never (800, 600)) event_no_origin world_upload) = []"
proof -
  have h: "\<not> has_origin event_no_origin"
    by (simp add: has_origin_def event_no_origin_def sample_event_def)
  have d: "original_deleted (sample_env never (800, 600)) event_no_origin world_upload"
    by (simp add: original_deleted_def run_defs eval_simps)
  from missing_origin_fails_after_delete [OF h, of "sample_env never (800, 600)" world_upload] h d
  show ?thesis by (simp add: filter_empty_conv)
qed

text \<open>
  Claim C9. In every run at most one document update is called; a document update is called
  only behind a successful signing call, and with the URL that the signing gave; and after a
  run that returns a result for an event whose \<^verbatim>\<open>messageOrigin\<close> is \<open>p\<close>, the document
  that \<^verbatim>\<open>doc(p)\<close> names has the field \<^verbatim>\<open>resource\<close> set to the \<^verbatim>\<open>url\<close> of that result.
  For \<^verbatim>\<open>messageOrigin = "docs/A"\<close> that document is \<^verbatim>\<open>docs/A\<close>.
\<close>

theorem origin_updated_once_with_returned_url:
  "length (filter (\<lambda>e. is_doc_update (fst e)) (run_calls E object w)) \<le> 1
   \<and> (\<forall>p u ok. (DocUpdate p u, ok) \<in> set (run_calls E object w) \<longrightarrow>
         (GetSignedUrl (bucket object) (bucketFilePath E object), True)
           \<in> set (takeWhile (\<lambda>e. \<not> is_doc_update (fst e)) (run_calls E object w))
         \<and> u = signed_url E (bucket object, bucketFilePath E object))
   \<and> (\<forall>m url p. run_result E object w = Inr (Result m url)
                  \<and> messageOrigin object = Inr (Some p) \<longrightarrow>
         (case doc (Some p) of
            Inl e \<Rightarrow> False
          | Inr r \<Rightarrow>
              (case firestore (run_world E object w) r of
                 None \<Rightarrow> False
               | Some flds \<Rightarrow> flds ''resource'' = Some url)))
   \<and> (\<forall>m url. run_result E object w = Inr (Result m url)
                \<and> messageOrigin object = Inr (Some ''docs/A'') \<longrightarrow>
         (case firestore (run_world E object w) ''docs/A'' of
            None \<Rightarrow> False
          | Some flds \<Rightarrow> flds ''resource'' = Some url))"
proof -
  let ?url = "(GetSignedUrl (bucket object) (bucketFilePath E object), True)"
  let ?Q1 = "\<lambda>(r :: error + result) (w' :: world) calls.
     length (filter (\<lambda>e. is_doc_update (fst e)) calls) \<le> 1
     \<and> (\<forall>p u ok. (DocUpdate p u, ok) \<in> set calls \<longrightarrow>
           ?url \<in> set (takeWhile (\<lambda>e. \<not> is_doc_update (fst e)) calls)
           \<and> u = signed_url E (bucket object, bucketFilePath E object))"
  let ?Q2 = "\<lambda>r w' (calls :: (call \<times> bool) list).
     \<forall>m url p. r = Inr (Result m url)
                \<and> doc (map_of (the (metadata object)) ''messageOrigin'') = Inr p \<longrightarrow>
       (case firestore w' p of None \<Rightarrow> False | Some flds \<Rightarrow> flds ''resource'' = Some url)"
  have "wp (imgDownscale E object) (\<lambda>r w'. ?Q1 r w' (drop (length (trace w)) (trace w'))) w"
    unfolding imgDownscale_def
    by (cases "1080 < fst (the (image_size E (the (storage w (bucket object, filePath object)))))")
       (simp_all add: wp_rules logc_simps split: sum.split cong: wp_cong)
  then have 1: "?Q1 (run_result E object w) (run_world E object w) (run_calls E object w)"
    by (rule run_wp)
  have "wp (imgDownscale E object) (\<lambda>r w'. ?Q2 r w' (drop (length (trace w)) (trace w'))) w"
    unfolding imgDownscale_def
    by (cases "1080 < fst (the (image_size E (the (storage w (bucket object, filePath object)))))")
       (simp_all add: wp_rules logc_simps split: sum.split cong: wp_cong)
  then have 2: "?Q2 (run_result E object w) (run_world E object w) (run_calls E object w)"
    by (rule run_wp)
  have 3: "case doc (Some p) of
            Inl e \<Rightarrow> False
          | Inr r \<Rightarrow>
              (case firestore (run_world E object w) r of
                 None \<Rightarrow> False
               | Some flds \<Rightarrow> flds ''resource'' = Some url)"
    if a: "run_result E object w = Inr (Result m url) \<and> messageOrigin object = Inr (Some p)"
    for m url p
  proof (cases "doc (Some p)")
    case (Inl e)
    from a have md: "map_of (the (metadata object)) ''messageOrigin'' = Some p"
      by (auto simp add: messageOrigin_def split: option.splits)
    with Inl have e: "doc (map_of (the (metadata object)) ''messageOrigin'') = Inl e"
      by simp
    have "wp (imgDownscale E object) (\<lambda>r w'. \<forall>m u. r \<noteq> Inr (Result m u)) w"
      unfolding imgDownscale_def using e
      by (cases "1080 < fst (the (image_size E (the (storage w (bucket object, filePath object)))))")
         (simp_all add: wp_rules logc_simps cong: wp_cong)
    then have "\<forall>m u. run_result E object w \<noteq> Inr (Result m u)"
      by (simp add: wp_def run_result_def)
    with a show ?thesis by blast
  next
    case (Inr r)
    from a have md: "map_of (the (metadata object)) ''messageOrigin'' = Some p"
      by (auto simp add: messageOrigin_def split: option.splits)
    with Inr have "doc (map_of (the (metadata object)) ''messageOrigin'') = Inr r"
      by simp
    with 2 a have "case firestore (run_world E object w) r of
                     None \<Rightarrow> False
                   | Some flds \<Rightarrow> flds ''resource'' = Some url"
      by blast
    with Inr show ?thesis by simp
  qed
  have d: "doc (Some ''docs/A'') = Inr ''docs/A''"
    by (simp add: doc_def startsWith_def)
  have 4: "case firestore (run_world E object w) ''docs/A'' of
            None \<Rightarrow> False
          | Some flds \<Rightarrow> flds ''resource'' = Some url"
    if a: "run_result E object w = Inr (Result m url)
             \<and> messageOrigin object = Inr (Some ''docs/A'')"
    for m url
    using 3 [OF a] d by simp
  from 1 3 4 show ?thesis by blast
qed

theorem origin_updated_once_with_returned_url_witness:
  "run_result (sample_env never (2000, 1000)) event_docs_A world_upload
     = Inr (Result [(''messageOrigin'', ''docs/A'')]
         (signed_url (sample_env never (2000, 1000))
            (bucket event_docs_A, bucketFilePath (sample_env never (2000, 1000)) event_docs_A)))
   \<and> messageOrigin event_docs_A = Inr (Some ''docs/A'')
   \<and> (case firestore (run_world (sample_env never (2000, 1000)) event_docs_A world_upload) ''docs/A'' of
         None \<Rightarrow> False
       | Some flds \<Rightarrow> flds ''resource'' =
           Some (signed_url (sample_env never (2000, 1000))
             (bucket event_docs_A, bucketFilePath (sample_env never (2000, 1000)) event_docs_A)))
   \<and> run_result (sample_env never (2000, 1000)) event_slash_docs_A world_upload
     = Inr (Result [(''messageOrigin'', ''/docs/A'')]
         (signed_url (sample_env never (2000, 1000))
            (bucket event_slash_docs_A,
             bucketFilePath (sample_env never (2000, 1000)) event_slash_docs_A)))
   \<and> messageOrigin event_slash_docs_A = Inr (Some ''/docs/A'')
   \<and> doc (Some ''/docs/A'') = Inr ''docs/A''
   \<and> (case firestore (run_world (sample_env never (2000, 1000)) event_slash_docs_A world_upload)
              ''docs/A'' of
         None \<Rightarrow> False
       | Some flds \<Rightarrow> flds ''resource'' =
           Some (signed_url (sample_env never (2000, 1000))
             (bucket event_slash_docs_A,
              bucketFilePath (sample_env never (2000, 1000)) event_slash_docs_A)))"
proof -
  have r: "run_result (sample_env never (2000, 1000)) event_docs_A world_upload
     = Inr (Result [(''messageOrigin'', ''docs/A'')]
         (signed_url (sample_env never (2000, 1000))
            (bucket event_docs_A, bucketFilePath (sample_env never (2000, 1000)) event_docs_A)))"
    by (simp add: run_defs eval_simps)
  have m: "messageOrigin event_docs_A = Inr (Some ''docs/A'')"
    by (simp add: messageOrigin_def event_docs_A_def sample_event_def)
  have r': "run_result (sample_env never (2000, 1000)) event_slash_docs_A world_upload
     = Inr (Result [(''messageOrigin'', ''/docs/A'')]
         (signed_url (sample_env never (2000, 1000))
            (bucket event_slash_docs_A,
             bucketFilePath (sample_env never (2000, 1000)) event_slash_docs_A)))"
    by (simp add: run_defs eval_simps)
  have m': "messageOrigin event_slash_docs_A = Inr (Some ''/docs/A'')"
    by (simp add: messageOrigin_def event_slash_docs_A_def sample_event_def)
  have d': "doc (Some ''/docs/A'') = Inr ''docs/A''"
    by (simp add: doc_def startsWith_def)
  from origin_updated_once_with_returned_url
         [of "sample_env never (2000, 1000)" event_docs_A world_upload] r m
  have one: "case firestore (run_world (sample_env never (2000, 1000)) event_docs_A world_upload)
                    ''docs/A'' of
         None \<Rightarrow> False
       | Some flds \<Rightarrow> flds ''resource'' =
           Some (signed_url (sample_env never (2000, 1000))
             (bucket event_docs_A, bucketFilePath (sample_env never (2000, 1000)) event_docs_A))"
    by blast
  from origin_updated_once_with_returned_url
         [of "sample_env never (2000, 1000)" event_slash_docs_A world_upload] r' m'
  have "case doc (Some ''/docs/A'') of
            Inl e \<Rightarrow> False
          | Inr r \<Rightarrow>
              (case firestore (run_world (sample_env never (2000, 1000)) event_slash_docs_A
                      world_upload) r of
                 None \<Rightarrow> False
               | Some flds \<Rightarrow> flds ''resource'' =
                   Some (signed_url (sample_env never (2000, 1000))
                     (bucket event_slash_docs_A,
                      bucketFilePath (sample_env never (2000, 1000)) event_slash_docs_A)))"
    by blast
  with d' have two: "case firestore (run_world (sample_env never (2000, 1000)) event_slash_docs_A
                      world_upload) ''docs/A'' of
                 None \<Rightarrow> False
               | Some flds \<Rightarrow> flds ''resource'' =
                   Some (signed_url (sample_env never (2000, 1000))
                     (bucket event_slash_docs_A,
                      bucketFilePath (sample_env never (2000, 1000)) event_slash_docs_A))"
    by simp
  from r m one r' m' d' two show ?thesis by blast
qed

end
